theory Spec2Isabelle
  imports Complex_Main "HOL-Library.Sublist"
begin

section \<open>Configuration (\<^verbatim>\<open>CONFIG\<close> of app.js)\<close>

definition MAX_COMPARE_ITEMS :: nat where
  "MAX_COMPARE_ITEMS = 3"

definition ANIMATION_DELAY_MS :: nat where
  "ANIMATION_DELAY_MS = 100"

section \<open>Data model\<close>

text \<open>
  The catalog is the array that \<^verbatim>\<open>jsyaml.load\<close> returns. Its entries are JavaScript
  objects, so the array holds references: \<open>ref\<close> is the identity of an object and
  the field \<open>objects\<close> of the state (the heap) gives the content behind a reference.
  Two entries with equal content are still different references unless the data file
  makes one entry an alias of the other.
\<close>

type_synonym ref = nat

record dimensions =
  width :: string
  depth_length :: string
  height :: string

record item =
  product_name :: string
  category :: string
  price :: string
  dimensions :: dimensions
  main_image_url :: string
  url :: string

subsection \<open>A JavaScript \<^verbatim>\<open>Set\<close>: its elements in insertion order\<close>

text \<open>
  \<^verbatim>\<open>Set.prototype.add\<close> appends a value that is not yet a member and does nothing
  otherwise, \<^verbatim>\<open>delete\<close> removes the value, \<^verbatim>\<open>size\<close> counts the members, and
  \<^verbatim>\<open>Array.from\<close> lists them in insertion order. The list is that order.
\<close>

definition set_has :: "'a \<Rightarrow> 'a list \<Rightarrow> bool" where
  "set_has x xs = (x \<in> set xs)"

definition set_add :: "'a \<Rightarrow> 'a list \<Rightarrow> 'a list" where
  "set_add x xs = (if x \<in> set xs then xs else xs @ [x])"

definition set_delete :: "'a \<Rightarrow> 'a list \<Rightarrow> 'a list" where
  "set_delete x xs = filter (\<lambda>y. y \<noteq> x) xs"

definition set_size :: "'a list \<Rightarrow> nat" where
  "set_size xs = length xs"

definition new_Set :: "'a list \<Rightarrow> 'a list" where
  "new_Set arr = foldl (\<lambda>acc x. set_add x acc) [] arr"

subsection \<open>The page: cards of the gallery, comparison table, storage\<close>

text \<open>
  A card as \<^verbatim>\<open>buildCardElement\<close> builds it. \<open>data_index\<close> is the
  \<^verbatim>\<open>data-index\<close> attribute of the card's checkbox and of its cart button (written as
  the decimal text of a number and read back with \<^verbatim>\<open>parseInt(_, 10)\<close>, so the model
  keeps the number), \<open>cb_checked\<close> the checkbox, \<open>card_selected\<close> the class
  \<^verbatim>\<open>selected\<close> of the card, \<open>btn_in_cart\<close> the class \<^verbatim>\<open>in-cart\<close> of the button.
\<close>

record card =
  card_item :: item
  data_index :: int
  cb_checked :: bool
  card_selected :: bool
  btn_in_cart :: bool
  btn_text :: string
  animation_delay_ms :: nat

datatype cell = HeaderCell string string | TextCell string | LinkCell string

type_synonym table = "(string \<times> cell list) list"

datatype storage_call = SetItem string string | RemoveItem string

datatype error = LoadFailed | TypeError | OutsideModel

text \<open>
  The \<^verbatim>\<open>state\<close> object of app.js (its first four fields) together with what the
  handlers read and write around it: the object heap, the elements of the page they
  touch, the alerts shown, and \<^verbatim>\<open>localStorage\<close> with the trace of the calls made on it.
\<close>

record state =
  catalogItems :: "ref list"
  compareIndices :: "int list"
  cartIndices :: "int list"
  activeFilter :: string
  objects :: "ref \<Rightarrow> item"
  gallery :: "card list"
  active_pill :: string
  compare_bar_hidden :: bool
  compare_count :: nat
  btn_compare_disabled :: bool
  cart_badge_text :: nat
  cart_badge_hidden :: bool
  compare_modal_hidden :: bool
  compare_table :: table
  cart_modal_hidden :: bool
  cart_container :: "item list"
  cart_total_price :: rat
  alerts :: "string list"
  localStorage :: "string \<rightharpoonup> string"
  storage_calls :: "storage_call list"

section \<open>Comparison set\<close>

definition updateFloatingCompareBar :: "state \<Rightarrow> state" where
  "updateFloatingCompareBar s =
     (let count = set_size (compareIndices s) in
      if count > 0
      then s\<lparr>compare_bar_hidden := False, compare_count := count,
              btn_compare_disabled := (count < 2)\<rparr>
      else s\<lparr>compare_bar_hidden := True\<rparr>)"

definition capacity_warning :: string where
  "capacity_warning = ''You can compare a maximum of 3 items at once.''"

text \<open>
  \<^verbatim>\<open>toggleComparisonItem(checkboxElement)\<close>. The element is the checkbox of the card
  at place \<open>k\<close> of the gallery; the handler is only ever called on an element of the
  gallery, and does nothing in the model for another \<open>k\<close>.
\<close>

definition toggleComparisonItem :: "nat \<Rightarrow> state \<Rightarrow> state" where
  "toggleComparisonItem k s =
     (if k < length (gallery s) then
        (let c = gallery s ! k; itemIndex = data_index c in
         if cb_checked c then
           (if set_size (compareIndices s) \<ge> MAX_COMPARE_ITEMS
            then s\<lparr>gallery := (gallery s)[k := c\<lparr>cb_checked := False\<rparr>],
                    alerts := alerts s @ [capacity_warning]\<rparr>
            else updateFloatingCompareBar
                   (s\<lparr>compareIndices := set_add itemIndex (compareIndices s),
                      gallery := (gallery s)[k := c\<lparr>card_selected := True\<rparr>]\<rparr>))
         else updateFloatingCompareBar
                (s\<lparr>compareIndices := set_delete itemIndex (compareIndices s),
                   gallery := (gallery s)[k := c\<lparr>card_selected := False\<rparr>]\<rparr>))
      else s)"

text \<open>
  \<^verbatim>\<open>handleGalleryInteractions\<close> receives the \<^verbatim>\<open>change\<close> event of a checkbox of class
  \<^verbatim>\<open>compare-cb\<close>; the browser has flipped the checkbox before the listener runs.
  \<open>toggleCompare k\<close> is the user toggling the checkbox of the card at place \<open>k\<close>.
\<close>

definition handleGalleryInteractions :: "nat \<Rightarrow> state \<Rightarrow> state" where
  "handleGalleryInteractions k s = toggleComparisonItem k s"

definition checkbox_flipped :: "nat \<Rightarrow> state \<Rightarrow> state" where
  "checkbox_flipped k s =
     s\<lparr>gallery := (gallery s)[k := (gallery s ! k)\<lparr>cb_checked := \<not> cb_checked (gallery s ! k)\<rparr>]\<rparr>"

definition toggleCompare :: "nat \<Rightarrow> state \<Rightarrow> state" where
  "toggleCompare k s = handleGalleryInteractions k (checkbox_flipped k s)"

definition clearComparisons :: "state \<Rightarrow> state" where
  "clearComparisons s =
     (let s1 = updateFloatingCompareBar (s\<lparr>compareIndices := []\<rparr>) in
      s1\<lparr>gallery := map (\<lambda>c. c\<lparr>card_selected := False, cb_checked := False\<rparr>) (gallery s1)\<rparr>)"

section \<open>Numbers as text: \<^verbatim>\<open>JSON.stringify\<close> and \<^verbatim>\<open>JSON.parse\<close> on arrays of integers\<close>

definition is_digit :: "char \<Rightarrow> bool" where
  "is_digit c = (c \<in> set ''0123456789'')"

definition digit_char :: "nat \<Rightarrow> char" where
  "digit_char d = ''0123456789'' ! d"

definition digit_val :: "char \<Rightarrow> nat" where
  "digit_val c = of_char c - 48"

definition digits_value :: "string \<Rightarrow> nat" where
  "digits_value ds = foldl (\<lambda>a c. 10 * a + digit_val c) 0 ds"

text \<open>
  The decimal text of an integer, as JavaScript writes a number that is an integer
  below \<open>10\<^sup>2\<^sup>1\<close> in magnitude (every index of an array is).
\<close>

fun show_nat :: "nat \<Rightarrow> string" where
  "show_nat n = (if n < 10 then [digit_char n] else show_nat (n div 10) @ [digit_char (n mod 10)])"

declare show_nat.simps [simp del]

definition show_int :: "int \<Rightarrow> string" where
  "show_int i = (if i < 0 then CHR ''-'' # show_nat (nat (- i)) else show_nat (nat i))"

fun join_commas :: "string list \<Rightarrow> string" where
  "join_commas [] = []"
| "join_commas [w] = w"
| "join_commas (w # v # ws) = w @ CHR '','' # join_commas (v # ws)"

definition JSON_stringify :: "int list \<Rightarrow> string" where
  "JSON_stringify xs = CHR ''['' # join_commas (map show_int xs) @ '']''"

fun split_commas :: "string \<Rightarrow> string list" where
  "split_commas [] = [[]]"
| "split_commas (c # cs) =
     (if c = CHR '','' then [] # split_commas cs
      else (case split_commas cs of [] \<Rightarrow> [[c]] | w # ws \<Rightarrow> (c # w) # ws))"

text \<open>A JSON number without fraction and exponent: digits, no leading zero.\<close>

definition parse_nat_literal :: "string \<Rightarrow> nat option" where
  "parse_nat_literal ds =
     (if ds \<noteq> [] \<and> list_all is_digit ds \<and> (length ds = 1 \<or> hd ds \<noteq> CHR ''0'')
      then Some (digits_value ds) else None)"

definition parse_int_literal :: "string \<Rightarrow> int option" where
  "parse_int_literal t =
     (case t of
        [] \<Rightarrow> None
      | c # ds \<Rightarrow>
          if c = CHR ''-'' then map_option (\<lambda>n. - int n) (parse_nat_literal ds)
          else map_option int (parse_nat_literal t))"

definition int_array_text :: "string \<Rightarrow> int list option" where
  "int_array_text t =
     (case t of
        [] \<Rightarrow> None
      | c # r \<Rightarrow>
          if c = CHR ''['' \<and> r \<noteq> [] \<and> last r = CHR '']''
          then (if butlast r = [] then Some []
                else those (map parse_int_literal (split_commas (butlast r))))
          else None)"

definition is_json_space :: "char \<Rightarrow> bool" where
  "is_json_space c = (c \<in> set [CHR '' '', CHR 0x09, CHR 0x0A, CHR 0x0D])"

text \<open>
  \<^verbatim>\<open>JSON.parse\<close> followed by \<^verbatim>\<open>Array.isArray\<close>, as far as the cart needs it. A text
  written by \<open>JSON_stringify\<close> gives the array of its integers. A text whose first
  character after white space is not an opening bracket is not an array for
  \<^verbatim>\<open>JSON.parse\<close> (it throws or returns another kind of value). Any other text that
  opens a bracket (white space inside, elements that are not integers, a syntax error)
  is outside this model.
\<close>

datatype parsed = IntArray "int list" | NotAnArray | OtherArrayText

definition JSON_parse :: "string \<Rightarrow> parsed" where
  "JSON_parse t =
     (case int_array_text t of
        Some xs \<Rightarrow> IntArray xs
      | None \<Rightarrow>
          (case dropWhile is_json_space t of
             [] \<Rightarrow> NotAnArray
           | c # r \<Rightarrow> if c = CHR ''['' then OtherArrayText else NotAnArray))"

section \<open>Cart\<close>

definition updateCartBadge :: "state \<Rightarrow> state" where
  "updateCartBadge s =
     (let count = set_size (cartIndices s) in
      s\<lparr>cart_badge_text := count, cart_badge_hidden := (if count > 0 then False else True)\<rparr>)"

definition localStorage_setItem :: "string \<Rightarrow> string \<Rightarrow> state \<Rightarrow> state" where
  "localStorage_setItem key v s =
     s\<lparr>localStorage := (localStorage s)(key \<mapsto> v),
       storage_calls := storage_calls s @ [SetItem key v]\<rparr>"

definition localStorage_removeItem :: "string \<Rightarrow> state \<Rightarrow> state" where
  "localStorage_removeItem key s =
     s\<lparr>localStorage := (localStorage s)(key := None),
       storage_calls := storage_calls s @ [RemoveItem key]\<rparr>"

text \<open>
  \<^verbatim>\<open>toggleCartItem(buttonElement)\<close>: the element is the cart button of the card at
  place \<open>k\<close> of the gallery (see \<open>toggleComparisonItem\<close>).
\<close>

definition toggleCartItem :: "nat \<Rightarrow> state \<Rightarrow> state" where
  "toggleCartItem k s =
     (if k < length (gallery s) then
        (let c = gallery s ! k; itemIndex = data_index c;
             s1 = (if set_has itemIndex (cartIndices s)
                   then s\<lparr>cartIndices := set_delete itemIndex (cartIndices s),
                           gallery := (gallery s)[k := c\<lparr>btn_in_cart := False, btn_text := ''Add to Cart''\<rparr>]\<rparr>
                   else s\<lparr>cartIndices := set_add itemIndex (cartIndices s),
                           gallery := (gallery s)[k := c\<lparr>btn_in_cart := True, btn_text := ''Remove from Cart''\<rparr>]\<rparr>)
         in updateCartBadge
              (localStorage_setItem ''catalog-cart'' (JSON_stringify (cartIndices s1)) s1))
      else s)"

definition closeCartModal :: "state \<Rightarrow> state" where
  "closeCartModal s = s\<lparr>cart_modal_hidden := True\<rparr>"

definition clearCart :: "state \<Rightarrow> state" where
  "clearCart s =
     (let s1 = updateCartBadge (localStorage_removeItem ''catalog-cart'' (s\<lparr>cartIndices := []\<rparr>));
          s2 = s1\<lparr>gallery := map (\<lambda>c. c\<lparr>btn_text := ''Add to Cart'', btn_in_cart := False\<rparr>) (gallery s1)\<rparr>
      in closeCartModal s2)"

text \<open>
  The restore step of \<^verbatim>\<open>fetchCatalogData\<close>. \<open>response_ok\<close> is \<^verbatim>\<open>response.ok\<close>,
  \<open>loaded\<close> the array \<^verbatim>\<open>jsyaml.load(yamlString) || []\<close> and \<open>heap\<close> the objects it
  holds. An empty saved text is falsy and skipped like a missing one.
\<close>

definition fetchCatalogData :: "bool \<Rightarrow> ref list \<Rightarrow> (ref \<Rightarrow> item) \<Rightarrow> state \<Rightarrow> error + state" where
  "fetchCatalogData response_ok loaded heap s =
     (if \<not> response_ok then Inl LoadFailed
      else
        (let s1 = s\<lparr>catalogItems := loaded, objects := heap\<rparr> in
         case localStorage s1 ''catalog-cart'' of
           None \<Rightarrow> Inr (updateCartBadge s1)
         | Some savedCart \<Rightarrow>
             if savedCart = [] then Inr (updateCartBadge s1)
             else
               (case JSON_parse savedCart of
                  IntArray parsed \<Rightarrow> Inr (updateCartBadge (s1\<lparr>cartIndices := new_Set parsed\<rparr>))
                | NotAnArray \<Rightarrow> Inr (updateCartBadge s1)
                | OtherArrayText \<Rightarrow> Inl OutsideModel)))"

subsection \<open>Cart total\<close>

text \<open>
  \<^verbatim>\<open>item.price.replace(/[^0-9.]/g, "")\<close> keeps the digits and the dots.
  \<open>parseFloat\<close> is \<^verbatim>\<open>parseFloat\<close> on such a text: the digits up to the first dot,
  then the digits after it up to the next dot; \<open>None\<close> is \<^verbatim>\<open>NaN\<close>. The value is
  the exact decimal; JavaScript rounds it, and every sum, to the nearest double, which
  changes nothing while the values are integers below \<open>2\<^sup>5\<^sup>3\<close>.
\<close>

definition cleanPriceStr :: "string \<Rightarrow> string" where
  "cleanPriceStr p = filter (\<lambda>c. is_digit c \<or> c = CHR ''.'') p"

definition parseFloat :: "string \<Rightarrow> rat option" where
  "parseFloat t =
     (let ip = takeWhile is_digit t;
          fp = (case dropWhile is_digit t of
                  [] \<Rightarrow> []
                | c # r \<Rightarrow> if c = CHR ''.'' then takeWhile is_digit r else [])
      in if ip = [] \<and> fp = [] then None
         else Some (of_nat (digits_value ip) + of_nat (digits_value fp) / 10 ^ length fp))"

text \<open>
  \<^verbatim>\<open>calculateCartTotal\<close>: the number handed to \<^verbatim>\<open>Intl.NumberFormat\<close>; the currency
  formatting is not modelled.
\<close>

definition calculateCartTotal :: "item list \<Rightarrow> rat" where
  "calculateCartTotal items =
     foldl (\<lambda>sum it.
        sum + (case parseFloat (cleanPriceStr (price it)) of None \<Rightarrow> 0 | Some parsedFloat \<Rightarrow> parsedFloat))
       0 items"

section \<open>Rendering\<close>

text \<open>\<^verbatim>\<open>Array.prototype.indexOf\<close>: the first place holding the value (for objects: the
  same reference), \<open>-1\<close> when there is none.\<close>

fun indexOf :: "'a list \<Rightarrow> 'a \<Rightarrow> int" where
  "indexOf [] x = - 1"
| "indexOf (y # ys) x =
     (if y = x then 0 else (let r = indexOf ys x in if r < 0 then - 1 else r + 1))"

text \<open>\<^verbatim>\<open>array[idx]\<close>: \<open>None\<close> is \<^verbatim>\<open>undefined\<close>.\<close>

definition array_get :: "'a list \<Rightarrow> int \<Rightarrow> 'a option" where
  "array_get xs i = (if 0 \<le> i \<and> i < int (length xs) then Some (xs ! nat i) else None)"

definition visibleData :: "state \<Rightarrow> ref list" where
  "visibleData s =
     (if activeFilter s = ''all'' then catalogItems s
      else filter (\<lambda>r. category (objects s r) = activeFilter s) (catalogItems s))"

text \<open>The test that \<^verbatim>\<open>renderGalleryGrid\<close> makes on an item, read at the item's
  position in \<^verbatim>\<open>state.catalogItems\<close>.\<close>

abbreviation visible_position :: "state \<Rightarrow> nat \<Rightarrow> bool" where
  "visible_position s i \<equiv>
     (activeFilter s = ''all'' \<or> category (objects s (catalogItems s ! i)) = activeFilter s)"

definition buildCardElement :: "state \<Rightarrow> ref \<Rightarrow> nat \<Rightarrow> card" where
  "buildCardElement s r displayIndex =
     (let originalIndex = indexOf (catalogItems s) r;
          isSelected = set_has originalIndex (compareIndices s)
      in \<lparr>card_item = objects s r,
          data_index = originalIndex,
          cb_checked = isSelected,
          card_selected = isSelected,
          btn_in_cart = set_has originalIndex (cartIndices s),
          btn_text = (if set_has originalIndex (cartIndices s)
                      then ''Remove from Cart'' else ''Add to Cart''),
          animation_delay_ms = displayIndex * ANIMATION_DELAY_MS\<rparr>)"

definition renderGalleryGrid :: "state \<Rightarrow> state" where
  "renderGalleryGrid s =
     s\<lparr>gallery := map (\<lambda>(displayIndex, r). buildCardElement s r displayIndex)
                     (enumerate 0 (visibleData s))\<rparr>"

text \<open>
  \<^verbatim>\<open>handleCategoryFilterClick\<close>: \<open>None\<close> is a click that hit no filter button,
  \<open>Some f\<close> a click on the button whose \<^verbatim>\<open>data-filter\<close> is \<open>f\<close>.
\<close>

definition handleCategoryFilterClick :: "string option \<Rightarrow> state \<Rightarrow> state" where
  "handleCategoryFilterClick button s =
     (case button of
        None \<Rightarrow> s
      | Some f \<Rightarrow> renderGalleryGrid (s\<lparr>active_pill := f, activeFilter := f\<rparr>))"

section \<open>Comparison and cart views\<close>

definition generateComparisonTableHTML :: "item list \<Rightarrow> table" where
  "generateComparisonTableHTML itemsToCompare =
     (if itemsToCompare = [] then []
      else
        [(''Feature'', map (\<lambda>i. HeaderCell (main_image_url i) (product_name i)) itemsToCompare),
         (''Price'', map (\<lambda>i. TextCell (price i)) itemsToCompare),
         (''Width'', map (\<lambda>i. TextCell (width (dimensions i))) itemsToCompare),
         (''Depth'', map (\<lambda>i. TextCell (depth_length (dimensions i))) itemsToCompare),
         (''Height'', map (\<lambda>i. TextCell (height (dimensions i))) itemsToCompare),
         (''Link'', map (\<lambda>i. LinkCell (url i)) itemsToCompare)])"

text \<open>
  \<^verbatim>\<open>openComparisonModal\<close> and \<^verbatim>\<open>openCartModal\<close> look every index up in
  \<^verbatim>\<open>state.catalogItems\<close>. An index outside the array gives \<^verbatim>\<open>undefined\<close>, and
  reading a property of it while the markup is built throws a \<^verbatim>\<open>TypeError\<close>.
\<close>

definition selectedObjects :: "state \<Rightarrow> int list \<Rightarrow> item list option" where
  "selectedObjects s indices =
     map_option (map (objects s)) (those (map (array_get (catalogItems s)) indices))"

definition openComparisonModal :: "state \<Rightarrow> error + state" where
  "openComparisonModal s =
     (case selectedObjects s (compareIndices s) of
        None \<Rightarrow> Inl TypeError
      | Some sel \<Rightarrow>
          Inr (s\<lparr>compare_table := generateComparisonTableHTML sel,
                 compare_modal_hidden := False\<rparr>))"

definition openCartModal :: "state \<Rightarrow> error + state" where
  "openCartModal s =
     (if set_size (cartIndices s) = 0
      then Inr (s\<lparr>cart_container := [], cart_total_price := 0, cart_modal_hidden := False\<rparr>)
      else
        (case selectedObjects s (cartIndices s) of
           None \<Rightarrow> Inl TypeError
         | Some sel \<Rightarrow>
             Inr (s\<lparr>cart_container := sel, cart_total_price := calculateCartTotal sel,
                    cart_modal_hidden := False\<rparr>)))"

section \<open>Start of a session\<close>

text \<open>
  The \<^verbatim>\<open>state\<close> object as the module declares it, on a page that shows nothing yet;
  \<open>storage\<close> is what \<^verbatim>\<open>localStorage\<close> holds from earlier sessions.
\<close>

definition no_item :: item where
  "no_item = \<lparr>product_name = [], category = [], price = [],
               dimensions = \<lparr>width = [], depth_length = [], height = []\<rparr>,
               main_image_url = [], url = []\<rparr>"

definition initial_state :: "(string \<rightharpoonup> string) \<Rightarrow> state" where
  "initial_state storage =
     \<lparr>catalogItems = [], compareIndices = [], cartIndices = [], activeFilter = ''all'',
      objects = (\<lambda>r. no_item), gallery = [], active_pill = ''all'',
      compare_bar_hidden = True, compare_count = 0, btn_compare_disabled = True,
      cart_badge_text = 0, cart_badge_hidden = True,
      compare_modal_hidden = True, compare_table = [],
      cart_modal_hidden = True, cart_container = [], cart_total_price = 0,
      alerts = [], localStorage = storage, storage_calls = []\<rparr>"

text \<open>\<^verbatim>\<open>initializeApplication\<close>: load, then the first render (the theme selector and
  the binding of the listeners are left out).\<close>

definition initializeApplication ::
    "bool \<Rightarrow> ref list \<Rightarrow> (ref \<Rightarrow> item) \<Rightarrow> state \<Rightarrow> error + state" where
  "initializeApplication response_ok loaded heap s =
     (case fetchCatalogData response_ok loaded heap s of
        Inl e \<Rightarrow> Inl e
      | Inr s1 \<Rightarrow> Inr (renderGalleryGrid s1))"

section \<open>Example catalogs\<close>

definition mk_item :: "string \<Rightarrow> string \<Rightarrow> string \<Rightarrow> item" where
  "mk_item n c p = \<lparr>product_name = n, category = c, price = p,
                    dimensions = \<lparr>width = ''80'', depth_length = ''35'', height = ''30''\<rparr>,
                    main_image_url = ''img'', url = ''link''\<rparr>"

text \<open>The catalog \<open>[A(sofa, $1000), B(chair, $500), C(sofa, $300)]\<close>: three objects.\<close>

definition abc_heap :: "ref \<Rightarrow> item" where
  "abc_heap r = (if r = 0 then mk_item ''A'' ''sofa'' ''$1000''
                 else if r = 1 then mk_item ''B'' ''chair'' ''$500''
                 else mk_item ''C'' ''sofa'' ''$300'')"

definition loaded_state :: "ref list \<Rightarrow> (ref \<Rightarrow> item) \<Rightarrow> state" where
  "loaded_state loaded heap =
     renderGalleryGrid ((initial_state Map.empty)\<lparr>catalogItems := loaded, objects := heap\<rparr>)"

definition abc_state :: state where
  "abc_state = loaded_state [0, 1, 2] abc_heap"

text \<open>The scenario of the specification: the filter set to \<open>sofa\<close>, then the
  checkboxes of the two visible cards (A and C) toggled, in this order.\<close>

definition sofa_state :: state where
  "sofa_state = handleCategoryFilterClick (Some ''sofa'') abc_state"

definition compare_A_C_state :: state where
  "compare_A_C_state = toggleCompare 1 (toggleCompare 0 sofa_state)"

text \<open>A selected and in the cart, then hidden by the filter \<open>chair\<close>, then shown again
  by the filter \<open>sofa\<close>.\<close>

definition selected_A_state :: state where
  "selected_A_state = toggleCartItem 0 (toggleCompare 0 abc_state)"

text \<open>Four objects; two objects with the same content; one object listed twice (an
  alias in the data file).\<close>

definition four_state :: state where
  "four_state = loaded_state [0, 1, 2, 3] abc_heap"

definition twins_state :: state where
  "twins_state = loaded_state [0, 1] (\<lambda>r. mk_item ''A'' ''sofa'' ''$1000'')"

definition alias_state :: state where
  "alias_state = loaded_state [0, 0] abc_heap"

definition priced_items :: "item list" where
  "priced_items = [mk_item ''P'' ''sofa'' ''$1,000.00'', mk_item ''Q'' ''sofa'' ''$2,299 - $3,099'']"

text \<open>The catalog with one object listed twice, after the checkbox of its first card
  has been toggled.\<close>

definition alias_selected_state :: state where
  "alias_selected_state = toggleCompare 0 alias_state"

definition compare_C_A_state :: state where
  "compare_C_A_state = toggleCompare 0 (toggleCompare 1 sofa_state)"

section \<open>The page agrees with the comparison set\<close>

text \<open>
  What every render leaves behind when no object occurs twice in the catalog: each
  checkbox shows whether the identity of its card is in the comparison set, no two
  cards carry the same identity, and the set is within its capacity.
\<close>

definition markers_shown :: "state \<Rightarrow> bool" where
  "markers_shown s =
     (list_all (\<lambda>c. cb_checked c = set_has (data_index c) (compareIndices s)) (gallery s) \<and>
      distinct (map data_index (gallery s)) \<and>
      set_size (compareIndices s) \<le> MAX_COMPARE_ITEMS)"

section \<open>Frame lemmas of the small updates\<close>

lemma updateFloatingCompareBar_fields [simp]:
  "compareIndices (updateFloatingCompareBar s) = compareIndices s"
  "cartIndices (updateFloatingCompareBar s) = cartIndices s"
  "activeFilter (updateFloatingCompareBar s) = activeFilter s"
  "gallery (updateFloatingCompareBar s) = gallery s"
  "localStorage (updateFloatingCompareBar s) = localStorage s"
  "storage_calls (updateFloatingCompareBar s) = storage_calls s"
  "catalogItems (updateFloatingCompareBar s) = catalogItems s"
  "objects (updateFloatingCompareBar s) = objects s"
  "alerts (updateFloatingCompareBar s) = alerts s"
  by (simp_all add: updateFloatingCompareBar_def Let_def)

lemma updateCartBadge_fields [simp]:
  "compareIndices (updateCartBadge s) = compareIndices s"
  "cartIndices (updateCartBadge s) = cartIndices s"
  "activeFilter (updateCartBadge s) = activeFilter s"
  "gallery (updateCartBadge s) = gallery s"
  "localStorage (updateCartBadge s) = localStorage s"
  "storage_calls (updateCartBadge s) = storage_calls s"
  "catalogItems (updateCartBadge s) = catalogItems s"
  "objects (updateCartBadge s) = objects s"
  by (simp_all add: updateCartBadge_def Let_def)

lemma checkbox_flipped_fields [simp]:
  "compareIndices (checkbox_flipped k s) = compareIndices s"
  "cartIndices (checkbox_flipped k s) = cartIndices s"
  "length (gallery (checkbox_flipped k s)) = length (gallery s)"
  by (simp_all add: checkbox_flipped_def)

section \<open>The comparison set stays within its capacity\<close>

lemma length_set_add: "length (set_add x xs) \<le> Suc (length xs)"
  by (simp add: set_add_def)

lemma length_set_delete: "length (set_delete x xs) \<le> length xs"
  by (simp add: set_delete_def)

lemma set_delete_absent: "x \<notin> set xs \<Longrightarrow> set_delete x xs = xs"
  by (induction xs) (auto simp: set_delete_def)

lemma toggleComparisonItem_bound:
  "length (compareIndices s) \<le> MAX_COMPARE_ITEMS \<Longrightarrow>
   length (compareIndices (toggleComparisonItem k s)) \<le> MAX_COMPARE_ITEMS"
  using length_set_add [of "data_index (gallery s ! k)" "compareIndices s"]
        length_set_delete [of "data_index (gallery s ! k)" "compareIndices s"]
  by (auto simp: toggleComparisonItem_def Let_def set_size_def)

lemma toggleCompare_bound:
  "length (compareIndices s) \<le> MAX_COMPARE_ITEMS \<Longrightarrow>
   length (compareIndices (toggleCompare k s)) \<le> MAX_COMPARE_ITEMS"
  by (simp add: toggleCompare_def handleGalleryInteractions_def toggleComparisonItem_bound)

lemma toggleCompare_seq_bound:
  "length (compareIndices s) \<le> MAX_COMPARE_ITEMS \<Longrightarrow>
   length (compareIndices (foldl (\<lambda>t k. toggleCompare k t) s ks)) \<le> MAX_COMPARE_ITEMS"
  by (induction ks arbitrary: s) (simp_all add: toggleCompare_bound)

lemma toggleCompare_absent_full:
  assumes "k < length (gallery s)"
    and "data_index (gallery s ! k) \<notin> set (compareIndices s)"
    and "MAX_COMPARE_ITEMS \<le> set_size (compareIndices s)"
  shows "compareIndices (toggleCompare k s) = compareIndices s"
  using assms
  by (simp add: toggleCompare_def handleGalleryInteractions_def toggleComparisonItem_def
      checkbox_flipped_def Let_def set_delete_absent)

lemma toggleCompare_rejected:
  assumes "k < length (gallery s)"
    and "\<not> cb_checked (gallery s ! k)"
    and "MAX_COMPARE_ITEMS \<le> set_size (compareIndices s)"
  shows "toggleCompare k s = s\<lparr>alerts := alerts s @ [capacity_warning]\<rparr>"
  using assms
  by (simp add: toggleCompare_def handleGalleryInteractions_def toggleComparisonItem_def
      checkbox_flipped_def Let_def list_update_same_conv)

text \<open>
  C2. Whatever checkboxes are toggled, in whatever order, starting from an empty
  comparison set, the set never holds more than \<open>MAX_COMPARE_ITEMS = 3\<close> identities.
  Toggling the checkbox of an identity that is not in a full set leaves the set as it
  was; when that checkbox was unchecked, as a card of an absent identity is rendered,
  the call is rejected: the warning is shown and nothing else of the state changes (the
  checkbox is unchecked again).
\<close>

theorem toggleCompare_capacity:
  "(compareIndices s = [] \<longrightarrow>
      set_size (compareIndices (foldl (\<lambda>t k. toggleCompare k t) s ks)) \<le> MAX_COMPARE_ITEMS) \<and>
   MAX_COMPARE_ITEMS = 3 \<and>
   (k < length (gallery t) \<and> data_index (gallery t ! k) \<notin> set (compareIndices t) \<and>
    MAX_COMPARE_ITEMS \<le> set_size (compareIndices t) \<longrightarrow>
      compareIndices (toggleCompare k t) = compareIndices t) \<and>
   (k < length (gallery t) \<and> \<not> cb_checked (gallery t ! k) \<and>
    MAX_COMPARE_ITEMS \<le> set_size (compareIndices t) \<longrightarrow>
      toggleCompare k t = t\<lparr>alerts := alerts t @ [capacity_warning]\<rparr>)"
proof -
  have "compareIndices s = [] \<longrightarrow>
      set_size (compareIndices (foldl (\<lambda>t k. toggleCompare k t) s ks)) \<le> MAX_COMPARE_ITEMS"
    using toggleCompare_seq_bound [of s ks] by (simp add: set_size_def)
  moreover have "MAX_COMPARE_ITEMS = 3"
    by (simp add: MAX_COMPARE_ITEMS_def)
  ultimately show ?thesis
    using toggleCompare_absent_full [of k t] toggleCompare_rejected [of k t] by blast
qed

theorem toggleCompare_capacity_witness:
  "compareIndices four_state = [] \<and>
   set_size (compareIndices (foldl (\<lambda>t k. toggleCompare k t) four_state [0, 1, 2, 3]))
     \<le> MAX_COMPARE_ITEMS \<and>
   compareIndices (foldl (\<lambda>t k. toggleCompare k t) four_state [0, 1, 2]) = [0, 1, 2] \<and>
   compareIndices (toggleCompare 3 (foldl (\<lambda>t k. toggleCompare k t) four_state [0, 1, 2]))
     = [0, 1, 2] \<and>
   alerts (toggleCompare 3 (foldl (\<lambda>t k. toggleCompare k t) four_state [0, 1, 2]))
     = [capacity_warning]"
proof -
  let ?t = "foldl (\<lambda>t k. toggleCompare k t) four_state [0, 1, 2]"
  have start: "compareIndices four_state = []"
    by code_simp
  have full: "compareIndices ?t = [0, 1, 2]"
    by code_simp
  have card: "3 < length (gallery ?t)" "\<not> cb_checked (gallery ?t ! 3)"
    "data_index (gallery ?t ! 3) \<notin> set (compareIndices ?t)"
    "MAX_COMPARE_ITEMS \<le> set_size (compareIndices ?t)" "alerts ?t = []"
    by code_simp+
  note inst = toggleCompare_capacity [of four_state "[0, 1, 2, 3]" 3 ?t]
  from inst start have bound:
    "set_size (compareIndices (foldl (\<lambda>t k. toggleCompare k t) four_state [0, 1, 2, 3]))
       \<le> MAX_COMPARE_ITEMS"
    by blast
  from inst card have same: "compareIndices (toggleCompare 3 ?t) = compareIndices ?t"
    by blast
  from inst card have "toggleCompare 3 ?t = ?t\<lparr>alerts := alerts ?t @ [capacity_warning]\<rparr>"
    by blast
  then have "alerts (toggleCompare 3 ?t) = alerts ?t @ [capacity_warning]"
    by simp
  with start bound full same card(5) show ?thesis
    by simp
qed

section \<open>The two clear operations\<close>

text \<open>
  C10. \<open>clearComparisons\<close> empties the comparison set and leaves the cart set, the
  active filter and the stored cart as they were; \<open>clearCart\<close> empties the cart set
  and leaves the comparison set and the active filter as they were.
\<close>

theorem clear_operations_frame:
  "cartIndices (clearComparisons s) = cartIndices s \<and>
   activeFilter (clearComparisons s) = activeFilter s \<and>
   localStorage (clearComparisons s) = localStorage s \<and>
   compareIndices (clearComparisons s) = [] \<and>
   compareIndices (clearCart s) = compareIndices s \<and>
   activeFilter (clearCart s) = activeFilter s \<and>
   cartIndices (clearCart s) = []"
  by (simp add: clearComparisons_def clearCart_def Let_def closeCartModal_def
      localStorage_removeItem_def)

section \<open>The cart total\<close>

lemma clean_range: "cleanPriceStr ''$2,299 - $3,099'' = ''22993099''"
  by code_simp

lemma clean_plain: "cleanPriceStr ''$1,000.00'' = ''1000.00''"
  by code_simp

lemma parse_range: "parseFloat ''22993099'' = Some 22993099"
  by (simp add: parseFloat_def is_digit_def digits_value_def digit_val_def)

lemma parse_plain: "parseFloat ''1000.00'' = Some 1000"
  by (simp add: parseFloat_def is_digit_def digits_value_def digit_val_def)

text \<open>
  C3. For the items priced \<open>$1,000.00\<close> and \<open>$2,299 - $3,099\<close> the total that
  \<open>calculateCartTotal\<close> computes is 22994099, not 1000 + 2299 = 3299: removing every
  character but digits and dots turns the range into \<open>22993099\<close>, which is read as one
  number.
\<close>

theorem calculateCartTotal_price_range:
  "cleanPriceStr ''$2,299 - $3,099'' = ''22993099'' \<and>
   parseFloat ''22993099'' = Some 22993099 \<and>
   calculateCartTotal priced_items = 22994099 \<and>
   calculateCartTotal priced_items \<noteq> 3299"
proof -
  have total: "calculateCartTotal priced_items = 22994099"
    by (simp add: calculateCartTotal_def priced_items_def mk_item_def
        clean_range clean_plain parse_range parse_plain)
  then have "calculateCartTotal priced_items \<noteq> 3299"
    by simp
  with total clean_range parse_range show ?thesis
    by simp
qed

section \<open>Toggling twice\<close>

lemma set_set_add: "set (set_add x xs) = insert x (set xs)"
  by (auto simp: set_add_def)

lemma set_set_delete: "set (set_delete x xs) = set xs - {x}"
  by (auto simp: set_delete_def)

lemma set_delete_snoc: "x \<notin> set xs \<Longrightarrow> set_delete x (xs @ [x]) = xs"
  by (auto simp: set_delete_def filter_id_conv)

lemma length_set_delete_member: "x \<in> set xs \<Longrightarrow> length (set_delete x xs) < length xs"
  by (simp add: set_delete_def length_filter_less)

lemma set_add_after_delete: "set_add x (set_delete x xs) = set_delete x xs @ [x]"
  by (simp add: set_add_def set_delete_def)

lemma toggleCompare_member:
  assumes "k < length (gallery s)" and "cb_checked (gallery s ! k)"
  shows "compareIndices (toggleCompare k s) = set_delete (data_index (gallery s ! k)) (compareIndices s)"
    and "gallery (toggleCompare k s) = (gallery s)[k := (gallery s ! k)\<lparr>cb_checked := False, card_selected := False\<rparr>]"
  using assms
  by (simp_all add: toggleCompare_def handleGalleryInteractions_def toggleComparisonItem_def
      checkbox_flipped_def Let_def)

lemma toggleCompare_absent:
  assumes "k < length (gallery s)" and "\<not> cb_checked (gallery s ! k)"
    and "set_size (compareIndices s) < MAX_COMPARE_ITEMS"
  shows "compareIndices (toggleCompare k s) = set_add (data_index (gallery s ! k)) (compareIndices s)"
    and "gallery (toggleCompare k s) = (gallery s)[k := (gallery s ! k)\<lparr>cb_checked := True, card_selected := True\<rparr>]"
  using assms
  by (simp_all add: toggleCompare_def handleGalleryInteractions_def toggleComparisonItem_def
      checkbox_flipped_def Let_def)

text \<open>
  On a card whose checkbox shows whether its identity is in the comparison set, with the
  set within its capacity, toggling the checkbox twice gives back a comparison set with
  exactly the members it had. When the identity was not a member, the set is the same in
  its insertion order too; when it was, the identity has moved to the end of the
  insertion order.
\<close>

lemma toggleCompare_twice:
  assumes k: "k < length (gallery s)"
    and shown: "cb_checked (gallery s ! k) = (data_index (gallery s ! k) \<in> set (compareIndices s))"
    and bound: "set_size (compareIndices s) \<le> MAX_COMPARE_ITEMS"
  shows "set (compareIndices (toggleCompare k (toggleCompare k s))) = set (compareIndices s) \<and>
         (data_index (gallery s ! k) \<notin> set (compareIndices s) \<longrightarrow>
            compareIndices (toggleCompare k (toggleCompare k s)) = compareIndices s) \<and>
         (data_index (gallery s ! k) \<in> set (compareIndices s) \<longrightarrow>
            compareIndices (toggleCompare k (toggleCompare k s)) =
              set_delete (data_index (gallery s ! k)) (compareIndices s) @ [data_index (gallery s ! k)])"
proof -
  let ?i = "data_index (gallery s ! k)"
  let ?s1 = "toggleCompare k s"
  show ?thesis
  proof (cases "?i \<in> set (compareIndices s)")
    case True
    with shown have ch: "cb_checked (gallery s ! k)" by simp
    have c1: "compareIndices ?s1 = set_delete ?i (compareIndices s)"
      and g1: "gallery ?s1 = (gallery s)[k := (gallery s ! k)\<lparr>cb_checked := False, card_selected := False\<rparr>]"
      using toggleCompare_member [OF k ch] by simp_all
    from g1 k have k1: "k < length (gallery ?s1)" and u1: "\<not> cb_checked (gallery ?s1 ! k)"
      and i1: "data_index (gallery ?s1 ! k) = ?i" by simp_all
    from True bound c1 have b1: "set_size (compareIndices ?s1) < MAX_COMPARE_ITEMS"
      using length_set_delete_member [of ?i "compareIndices s"] by (simp add: set_size_def)
    have "compareIndices (toggleCompare k ?s1) = set_add ?i (set_delete ?i (compareIndices s))"
      using toggleCompare_absent(1) [OF k1 u1 b1] by (simp add: i1 c1)
    then have c2: "compareIndices (toggleCompare k ?s1) = set_delete ?i (compareIndices s) @ [?i]"
      by (simp add: set_add_after_delete)
    with True show ?thesis by (auto simp: set_set_delete)
  next
    case False
    with shown have un: "\<not> cb_checked (gallery s ! k)" by simp
    show ?thesis
    proof (cases "set_size (compareIndices s) < MAX_COMPARE_ITEMS")
      case True
      have c1: "compareIndices ?s1 = set_add ?i (compareIndices s)"
        and g1: "gallery ?s1 = (gallery s)[k := (gallery s ! k)\<lparr>cb_checked := True, card_selected := True\<rparr>]"
        using toggleCompare_absent [OF k un True] by simp_all
      from g1 k have k1: "k < length (gallery ?s1)" and ch1: "cb_checked (gallery ?s1 ! k)"
        and i1: "data_index (gallery ?s1 ! k) = ?i" by simp_all
      have "compareIndices (toggleCompare k ?s1) = set_delete ?i (set_add ?i (compareIndices s))"
        using toggleCompare_member(1) [OF k1 ch1] by (simp add: i1 c1)
      with False show ?thesis by (simp add: set_add_def set_delete_snoc)
    next
      case full: False
      then have eq: "MAX_COMPARE_ITEMS \<le> set_size (compareIndices s)" by simp
      have r: "toggleCompare k s = s\<lparr>alerts := alerts s @ [capacity_warning]\<rparr>"
        using toggleCompare_rejected [OF k un eq] .
      have "toggleCompare k (s\<lparr>alerts := alerts s @ [capacity_warning]\<rparr>) =
            s\<lparr>alerts := alerts s @ [capacity_warning]\<rparr>\<lparr>alerts := alerts (s\<lparr>alerts := alerts s @ [capacity_warning]\<rparr>) @ [capacity_warning]\<rparr>"
        using k un eq by (intro toggleCompare_rejected) simp_all
      with r False show ?thesis by simp
    qed
  qed
qed

lemma toggleCompare_twice_example:
  "0 < length (gallery (foldl (\<lambda>t k. toggleCompare k t) four_state [0, 1])) \<and>
   cb_checked (gallery (foldl (\<lambda>t k. toggleCompare k t) four_state [0, 1]) ! 0) =
     (data_index (gallery (foldl (\<lambda>t k. toggleCompare k t) four_state [0, 1]) ! 0)
        \<in> set (compareIndices (foldl (\<lambda>t k. toggleCompare k t) four_state [0, 1]))) \<and>
   set_size (compareIndices (foldl (\<lambda>t k. toggleCompare k t) four_state [0, 1]))
     \<le> MAX_COMPARE_ITEMS \<and>
   compareIndices (foldl (\<lambda>t k. toggleCompare k t) four_state [0, 1]) = [0, 1] \<and>
   set (compareIndices (toggleCompare 0 (toggleCompare 0
          (foldl (\<lambda>t k. toggleCompare k t) four_state [0, 1])))) = {0, 1} \<and>
   compareIndices (toggleCompare 0 (toggleCompare 0
          (foldl (\<lambda>t k. toggleCompare k t) four_state [0, 1]))) = [1, 0]"
proof -
  let ?t = "foldl (\<lambda>t k. toggleCompare k t) four_state [0, 1]"
  have k: "0 < length (gallery ?t)"
    by code_simp
  have shown: "cb_checked (gallery ?t ! 0) = (data_index (gallery ?t ! 0) \<in> set (compareIndices ?t))"
    by code_simp
  have bound: "set_size (compareIndices ?t) \<le> MAX_COMPARE_ITEMS"
    by code_simp
  have before: "compareIndices ?t = [0, 1]"
    by code_simp
  have after: "compareIndices (toggleCompare 0 (toggleCompare 0 ?t)) = [1, 0]"
    by code_simp
  from toggleCompare_twice [OF k shown bound]
  have "set (compareIndices (toggleCompare 0 (toggleCompare 0 ?t))) = set (compareIndices ?t)"
    by blast
  with before have "set (compareIndices (toggleCompare 0 (toggleCompare 0 ?t))) = {0, 1}"
    by auto
  with k shown bound before after show ?thesis
    by blast
qed

text \<open>
  C6. \<open>toggleComparisonItem\<close> adds or deletes by the state of the checkbox, not by the
  membership of the identity. In the catalog that lists one object twice, both cards
  carry the identity 0; once the first card is selected, the comparison set is \<open>[0]\<close>
  while the checkbox of the second card is unchecked. Toggling that checkbox twice then
  does not restore the set: the first call adds 0 again (no change), the second deletes
  it, and the set is empty.
\<close>

theorem toggleCompare_twice_aliased_catalog:
  "alias_selected_state = toggleCompare 0 alias_state \<and>
   compareIndices alias_selected_state = [0] \<and>
   map data_index (gallery alias_selected_state) = [0, 0] \<and>
   map cb_checked (gallery alias_selected_state) = [True, False] \<and>
   compareIndices (toggleCompare 1 alias_selected_state) = [0] \<and>
   compareIndices (toggleCompare 1 (toggleCompare 1 alias_selected_state)) = [] \<and>
   compareIndices (toggleCompare 1 (toggleCompare 1 alias_selected_state)) \<noteq>
     compareIndices alias_selected_state"
proof -
  have "alias_selected_state = toggleCompare 0 alias_state"
    by (simp add: alias_selected_state_def)
  moreover have "compareIndices alias_selected_state = [0]"
    "map data_index (gallery alias_selected_state) = [0, 0]"
    "map cb_checked (gallery alias_selected_state) = [True, False]"
    "compareIndices (toggleCompare 1 alias_selected_state) = [0]"
    "compareIndices (toggleCompare 1 (toggleCompare 1 alias_selected_state)) = []"
    "compareIndices (toggleCompare 1 (toggleCompare 1 alias_selected_state)) \<noteq>
       compareIndices alias_selected_state"
    by code_simp+
  ultimately show ?thesis
    by (intro conjI)
qed

lemma toggleCartItem_fields:
  assumes "k < length (gallery s)"
  shows "cartIndices (toggleCartItem k s) =
           (if data_index (gallery s ! k) \<in> set (cartIndices s)
            then set_delete (data_index (gallery s ! k)) (cartIndices s)
            else set_add (data_index (gallery s ! k)) (cartIndices s))"
    and "length (gallery (toggleCartItem k s)) = length (gallery s)"
    and "data_index (gallery (toggleCartItem k s) ! k) = data_index (gallery s ! k)"
    and "storage_calls (toggleCartItem k s) =
           storage_calls s @ [SetItem ''catalog-cart'' (JSON_stringify (cartIndices (toggleCartItem k s)))]"
    and "localStorage (toggleCartItem k s) ''catalog-cart'' =
           Some (JSON_stringify (cartIndices (toggleCartItem k s)))"
    and "compareIndices (toggleCartItem k s) = compareIndices s"
  using assms
  by (simp_all add: toggleCartItem_def Let_def set_has_def localStorage_setItem_def)



section \<open>The stored cart is read back as it was written\<close>

lemma digit_table:
  "\<forall>d \<in> set [0..<10]. is_digit (digit_char d) \<and> digit_val (digit_char d) = d \<and>
      (digit_char d = CHR ''0'') = (d = 0)"
  by code_simp

lemma digit_char_props:
  assumes "d < 10"
  shows "is_digit (digit_char d)" and "digit_val (digit_char d) = d"
    and "(digit_char d = CHR ''0'') = (d = 0)"
proof -
  from assms have "d \<in> set [0..<10]" by simp
  with digit_table show "is_digit (digit_char d)" and "digit_val (digit_char d) = d"
    and "(digit_char d = CHR ''0'') = (d = 0)"
    by blast+
qed

lemma is_digit_not_sep: "is_digit c \<Longrightarrow> c \<noteq> CHR '','' \<and> c \<noteq> CHR ''-''"
  by (auto simp: is_digit_def)

lemma digits_value_snoc: "digits_value (ds @ [c]) = 10 * digits_value ds + digit_val c"
  by (simp add: digits_value_def)

lemma show_nat_digits: "list_all is_digit (show_nat n) \<and> show_nat n \<noteq> []"
proof (induction n rule: show_nat.induct)
  case (1 n)
  show ?case
  proof (cases "n < 10")
    case True
    then show ?thesis by (simp add: show_nat.simps [of n] digit_char_props)
  next
    case False
    then have "n mod 10 < 10" by simp
    with False 1 show ?thesis by (simp add: show_nat.simps [of n] digit_char_props)
  qed
qed

lemma show_nat_value: "digits_value (show_nat n) = n"
proof (induction n rule: show_nat.induct)
  case (1 n)
  show ?case
  proof (cases "n < 10")
    case True
    then show ?thesis by (simp add: show_nat.simps [of n] digits_value_def digit_char_props)
  next
    case False
    then have "n mod 10 < 10" by simp
    with False 1 show ?thesis
      by (simp add: show_nat.simps [of n] digits_value_snoc digit_char_props)
  qed
qed

lemma show_nat_hd: "0 < n \<Longrightarrow> hd (show_nat n) \<noteq> CHR ''0''"
proof (induction n rule: show_nat.induct)
  case (1 n)
  show ?case
  proof (cases "n < 10")
    case True
    with 1(2) show ?thesis by (simp add: show_nat.simps [of n] digit_char_props)
  next
    case False
    then have "0 < n div 10" by simp
    with False 1 show_nat_digits [of "n div 10"] show ?thesis
      by (simp add: show_nat.simps [of n])
  qed
qed

lemma show_nat_no_leading_zero: "length (show_nat n) = 1 \<or> hd (show_nat n) \<noteq> CHR ''0''"
proof (cases "n = 0")
  case True
  then show ?thesis by (simp add: show_nat.simps [of 0])
next
  case False
  then show ?thesis by (simp add: show_nat_hd)
qed

lemma parse_nat_literal_show_nat: "parse_nat_literal (show_nat n) = Some n"
  using show_nat_no_leading_zero [of n]
  by (simp add: parse_nat_literal_def show_nat_digits show_nat_value)

lemma show_nat_hd_not_minus: "show_nat n = c # ds \<Longrightarrow> c \<noteq> CHR ''-''"
  using show_nat_digits [of n] by (auto simp: is_digit_not_sep)

lemma parse_int_literal_show_int: "parse_int_literal (show_int i) = Some i"
proof (cases "i < 0")
  case True
  then show ?thesis
    by (simp add: show_int_def parse_int_literal_def parse_nat_literal_show_nat)
next
  case False
  obtain c ds where cd: "show_nat (nat i) = c # ds"
    using show_nat_digits [of "nat i"] by (cases "show_nat (nat i)") auto
  with False show_nat_hd_not_minus [OF cd] parse_nat_literal_show_nat [of "nat i"]
  show ?thesis
    by (simp add: show_int_def parse_int_literal_def)
qed

lemma show_nat_no_comma: "CHR '','' \<notin> set (show_nat n)"
proof
  assume "CHR '','' \<in> set (show_nat n)"
  with show_nat_digits [of n] have "is_digit CHR '',''" by (simp add: list_all_iff)
  then show False by (simp add: is_digit_def)
qed

lemma show_int_no_comma: "CHR '','' \<notin> set (show_int i)"
  by (simp add: show_int_def show_nat_no_comma)

lemma show_int_nonempty: "show_int i \<noteq> []"
  using show_nat_digits [of "nat i"] by (simp add: show_int_def)

lemma split_commas_word: "CHR '','' \<notin> set w \<Longrightarrow> split_commas w = [w]"
  by (induction w) auto

lemma split_commas_append:
  "CHR '','' \<notin> set w \<Longrightarrow> split_commas (w @ CHR '','' # r) = w # split_commas r"
  by (induction w) auto

lemma split_join_commas:
  "ws \<noteq> [] \<Longrightarrow> \<forall>w \<in> set ws. CHR '','' \<notin> set w \<Longrightarrow> split_commas (join_commas ws) = ws"
  by (induction ws rule: join_commas.induct) (simp_all add: split_commas_word split_commas_append)

lemma join_commas_nonempty: "ws \<noteq> [] \<Longrightarrow> \<forall>w \<in> set ws. w \<noteq> [] \<Longrightarrow> join_commas ws \<noteq> []"
  by (induction ws rule: join_commas.induct) simp_all

lemma those_map_Some: "those (map (\<lambda>x. Some x) xs) = Some xs"
  by (induction xs) simp_all

lemma int_array_text_stringify: "int_array_text (JSON_stringify xs) = Some xs"
proof (cases "xs = []")
  case True
  then show ?thesis by (simp add: int_array_text_def JSON_stringify_def)
next
  case False
  have ne: "join_commas (map show_int xs) \<noteq> []"
    using False by (intro join_commas_nonempty) (auto simp: show_int_nonempty)
  have sp: "split_commas (join_commas (map show_int xs)) = map show_int xs"
    using False by (intro split_join_commas) (auto simp: show_int_no_comma)
  show ?thesis
    using ne by (simp add: int_array_text_def JSON_stringify_def sp comp_def parse_int_literal_show_int those_map_Some)
qed

lemma JSON_parse_stringify: "JSON_parse (JSON_stringify xs) = IntArray xs"
  by (simp add: JSON_parse_def int_array_text_stringify)

lemma set_add_new: "x \<notin> set xs \<Longrightarrow> set_add x xs = xs @ [x]"
  by (simp add: set_add_def)

lemma new_Set_aux: "distinct (acc @ xs) \<Longrightarrow> foldl (\<lambda>acc x. set_add x acc) acc xs = acc @ xs"
  by (induction xs arbitrary: acc) (simp_all add: set_add_def)

lemma new_Set_distinct: "distinct xs \<Longrightarrow> new_Set xs = xs"
  using new_Set_aux [of "[]" xs] by (simp add: new_Set_def)

lemma distinct_set_add: "distinct xs \<Longrightarrow> distinct (set_add x xs)"
  by (simp add: set_add_def)

lemma distinct_set_delete: "distinct xs \<Longrightarrow> distinct (set_delete x xs)"
  by (simp add: set_delete_def)

lemma toggleCartItem_distinct:
  "k < length (gallery s) \<Longrightarrow> distinct (cartIndices s) \<Longrightarrow> distinct (cartIndices (toggleCartItem k s))"
  by (simp add: toggleCartItem_fields(1) distinct_set_add distinct_set_delete)

lemma JSON_stringify_nonempty: "JSON_stringify xs \<noteq> []"
  by (simp add: JSON_stringify_def)

lemma fetchCatalogData_restores:
  assumes "localStorage s ''catalog-cart'' = Some (JSON_stringify xs)" and "distinct xs"
  shows "\<exists>s'. fetchCatalogData True loaded heap s = Inr s' \<and> cartIndices s' = xs"
  using assms
  by (simp add: fetchCatalogData_def Let_def JSON_stringify_nonempty JSON_parse_stringify
      new_Set_distinct)

text \<open>
  C8. After a press of a cart button, \<^verbatim>\<open>localStorage\<close> holds under
  \<^verbatim>\<open>catalog-cart\<close> the serialization of the whole cart set, and a load that finds
  this text (whatever the rest of the state it starts from, whatever catalog it loads)
  succeeds and restores exactly that cart set, in the same insertion order. After
  \<open>clearCart\<close>, which removes the stored text, the next session starts with the empty
  cart set that \<open>clearCart\<close> left.
\<close>

theorem cart_round_trip:
  assumes "k < length (gallery s)" and "distinct (cartIndices s)"
  shows "localStorage (toggleCartItem k s) ''catalog-cart'' =
           Some (JSON_stringify (cartIndices (toggleCartItem k s))) \<and>
         (\<exists>s'. fetchCatalogData True loaded heap
                  (s0\<lparr>localStorage := localStorage (toggleCartItem k s)\<rparr>) = Inr s' \<and>
               cartIndices s' = cartIndices (toggleCartItem k s)) \<and>
         (\<exists>s'. fetchCatalogData True loaded heap
                  (initial_state (localStorage (clearCart s))) = Inr s' \<and>
               cartIndices s' = cartIndices (clearCart s))"
proof -
  have cl: "\<exists>s'. fetchCatalogData True loaded heap
                  (initial_state (localStorage (clearCart s))) = Inr s' \<and>
               cartIndices s' = cartIndices (clearCart s)"
    by (simp add: fetchCatalogData_def Let_def initial_state_def clearCart_def
        closeCartModal_def localStorage_removeItem_def)
  have w: "localStorage (toggleCartItem k s) ''catalog-cart'' =
      Some (JSON_stringify (cartIndices (toggleCartItem k s)))"
    using assms(1) by (rule toggleCartItem_fields(5))
  have d: "distinct (cartIndices (toggleCartItem k s))"
    using assms by (rule toggleCartItem_distinct)
  have "localStorage (s0\<lparr>localStorage := localStorage (toggleCartItem k s)\<rparr>) ''catalog-cart'' =
      Some (JSON_stringify (cartIndices (toggleCartItem k s)))"
    using w by simp
  from fetchCatalogData_restores [OF this d] w cl show ?thesis
    by blast
qed

theorem cart_round_trip_witness:
  "1 < length (gallery abc_state) \<and> distinct (cartIndices abc_state) \<and>
   cartIndices abc_state = [] \<and>
   localStorage (toggleCartItem 1 abc_state) ''catalog-cart'' = Some ''[1]'' \<and>
   (\<exists>s'. fetchCatalogData True [0, 1, 2] abc_heap
            ((initial_state Map.empty)\<lparr>localStorage := localStorage (toggleCartItem 1 abc_state)\<rparr>)
              = Inr s' \<and>
          cartIndices s' = [1])"
proof -
  have k: "1 < length (gallery abc_state)"
    by code_simp
  have c0: "cartIndices abc_state = []"
    by code_simp
  then have d: "distinct (cartIndices abc_state)"
    by simp
  have c1: "cartIndices (toggleCartItem 1 abc_state) = [1]"
    by code_simp
  have ser: "JSON_stringify [1] = ''[1]''"
    by code_simp
  note inst = cart_round_trip [OF k d, of "[0, 1, 2]" abc_heap "initial_state Map.empty"]
  from inst c1 ser have "localStorage (toggleCartItem 1 abc_state) ''catalog-cart'' = Some ''[1]''"
    by simp
  moreover from inst c1 have "\<exists>s'. fetchCatalogData True [0, 1, 2] abc_heap
            ((initial_state Map.empty)\<lparr>localStorage := localStorage (toggleCartItem 1 abc_state)\<rparr>)
              = Inr s' \<and> cartIndices s' = [1]"
    by simp
  ultimately show ?thesis
    using k d c0 by blast
qed

section \<open>What a render shows\<close>

lemma indexOf_ge: "- 1 \<le> indexOf xs x"
  by (induction xs) (auto simp: Let_def)

lemma indexOf_nth: "distinct xs \<Longrightarrow> i < length xs \<Longrightarrow> indexOf xs (xs ! i) = int i"
proof (induction xs arbitrary: i)
  case Nil
  then show ?case by simp
next
  case (Cons y ys)
  show ?case
  proof (cases i)
    case 0
    then show ?thesis by simp
  next
    case (Suc j)
    with Cons.prems have j: "j < length ys" and ne: "ys ! j \<noteq> y" by auto
    from Cons.IH [of j] Cons.prems j have "indexOf ys (ys ! j) = int j" by simp
    with Suc ne show ?thesis by (auto simp: Let_def)
  qed
qed

lemma filter_positions:
  "filter Q xs = map (\<lambda>i. xs ! i) (filter (\<lambda>i. Q (xs ! i)) [0..<length xs])"
proof -
  have "filter Q (map (\<lambda>i. xs ! i) [0..<length xs]) =
        map (\<lambda>i. xs ! i) (filter (\<lambda>i. Q (xs ! i)) [0..<length xs])"
    by (simp add: filter_map comp_def)
  then show ?thesis by (simp add: map_nth)
qed

lemma visibleData_positions:
  "visibleData s = map (\<lambda>i. catalogItems s ! i)
     (filter (visible_position s) [0..<length (catalogItems s)])"
proof (cases "activeFilter s = ''all''")
  case True
  then show ?thesis by (simp add: visibleData_def map_nth)
next
  case False
  then show ?thesis
    using filter_positions [of "\<lambda>r. category (objects s r) = activeFilter s" "catalogItems s"]
    by (simp add: visibleData_def)
qed

lemma subseq_visibleData: "subseq (visibleData s) (catalogItems s)"
  by (simp add: visibleData_def)

lemma map_enumerate_snd: "map (\<lambda>(i, x). f x) (enumerate n xs) = map f xs"
  by (induction xs arbitrary: n) simp_all

lemma gallery_render_items:
  "map card_item (gallery (renderGalleryGrid s)) = map (objects s) (visibleData s)"
  by (simp add: renderGalleryGrid_def buildCardElement_def Let_def comp_def case_prod_unfold
      map_enumerate_snd [unfolded case_prod_unfold])

lemma gallery_render_indices:
  "map data_index (gallery (renderGalleryGrid s)) = map (indexOf (catalogItems s)) (visibleData s)"
  by (simp add: renderGalleryGrid_def buildCardElement_def Let_def comp_def case_prod_unfold
      map_enumerate_snd [unfolded case_prod_unfold])

lemma render_markers:
  "c \<in> set (gallery (renderGalleryGrid s)) \<Longrightarrow>
     cb_checked c = (data_index c \<in> set (compareIndices s)) \<and>
     card_selected c = (data_index c \<in> set (compareIndices s)) \<and>
     btn_in_cart c = (data_index c \<in> set (cartIndices s))"
  by (auto simp: renderGalleryGrid_def buildCardElement_def Let_def set_has_def)

lemma render_frame [simp]:
  "compareIndices (renderGalleryGrid s) = compareIndices s"
  "cartIndices (renderGalleryGrid s) = cartIndices s"
  "catalogItems (renderGalleryGrid s) = catalogItems s"
  "objects (renderGalleryGrid s) = objects s"
  "activeFilter (renderGalleryGrid s) = activeFilter s"
  "localStorage (renderGalleryGrid s) = localStorage s"
  by (simp_all add: renderGalleryGrid_def)

lemma zip_map_same: "zip (map f xs) (map g xs) = map (\<lambda>x. (f x, g x)) xs"
  by (induction xs) simp_all

lemma map_indexOf_positions:
  assumes "distinct xs" and "\<forall>i \<in> set ps. i < length xs"
  shows "map (indexOf xs) (map (\<lambda>i. xs ! i) ps) = map int ps"
  using assms by (induction ps) (simp_all add: indexOf_nth)

lemma render_positions:
  assumes "distinct (catalogItems s)"
  shows "map (\<lambda>c. (data_index c, card_item c)) (gallery (renderGalleryGrid s)) =
         map (\<lambda>i. (int i, objects s (catalogItems s ! i)))
           (filter (visible_position s) [0..<length (catalogItems s)])"
proof -
  let ?ps = "filter (visible_position s) [0..<length (catalogItems s)]"
  have ix: "map data_index (gallery (renderGalleryGrid s)) = map int ?ps"
    using map_indexOf_positions [OF assms, of ?ps]
    by (simp add: gallery_render_indices visibleData_positions [of s])
  have it: "map card_item (gallery (renderGalleryGrid s)) =
      map (\<lambda>i. objects s (catalogItems s ! i)) ?ps"
    by (simp add: gallery_render_items visibleData_positions [of s] comp_def)
  have "map (\<lambda>c. (data_index c, card_item c)) (gallery (renderGalleryGrid s)) =
      zip (map data_index (gallery (renderGalleryGrid s))) (map card_item (gallery (renderGalleryGrid s)))"
    by (simp add: zip_map_same)
  also have "\<dots> = zip (map int ?ps) (map (\<lambda>i. objects s (catalogItems s ! i)) ?ps)"
    by (simp only: ix it)
  also have "\<dots> = map (\<lambda>i. (int i, objects s (catalogItems s ! i))) ?ps"
    by (simp add: zip_map_same)
  finally show ?thesis .
qed

lemma render_shows_position:
  assumes d: "distinct (catalogItems s)" and i: "i < length (catalogItems s)"
    and v: "visible_position s i"
  shows "\<exists>c \<in> set (gallery (renderGalleryGrid s)).
           data_index c = int i \<and> card_item c = objects s (catalogItems s ! i)"
proof -
  let ?ps = "filter (visible_position s) [0..<length (catalogItems s)]"
  from i v have "i \<in> set ?ps" by simp
  then have "(int i, objects s (catalogItems s ! i)) \<in>
      set (map (\<lambda>i. (int i, objects s (catalogItems s ! i))) ?ps)"
    by (rule imageI [of i "set ?ps" "\<lambda>i. (int i, objects s (catalogItems s ! i))", unfolded set_map [symmetric]])
  then have "(int i, objects s (catalogItems s ! i)) \<in>
      set (map (\<lambda>c. (data_index c, card_item c)) (gallery (renderGalleryGrid s)))"
    by (simp only: render_positions [OF d])
  then show ?thesis by auto
qed

text \<open>
  C4. The items that \<open>renderGalleryGrid\<close> shows are the items at the positions
  \<open>0, 1, \<dots>\<close> of the catalog that pass the test of the active filter (every position
  under \<open>all\<close>, the positions whose item has the filter as its category otherwise),
  taken in increasing order of position: a sub-sequence of the catalog, never reordered,
  and the whole catalog under \<open>all\<close>. The cards built show the content of these items
  in the same order.
\<close>

theorem render_visible_subset:
  "visibleData s = map (\<lambda>i. catalogItems s ! i)
      (filter (visible_position s) [0..<length (catalogItems s)]) \<and>
   subseq (visibleData s) (catalogItems s) \<and>
   visibleData (s\<lparr>activeFilter := ''all''\<rparr>) = catalogItems s \<and>
   map card_item (gallery (renderGalleryGrid s)) =
      map (\<lambda>i. objects s (catalogItems s ! i))
        (filter (visible_position s) [0..<length (catalogItems s)])"
proof -
  have 1: "visibleData s = map (\<lambda>i. catalogItems s ! i)
      (filter (visible_position s) [0..<length (catalogItems s)])"
    by (rule visibleData_positions)
  have 2: "map card_item (gallery (renderGalleryGrid s)) =
      map (\<lambda>i. objects s (catalogItems s ! i))
        (filter (visible_position s) [0..<length (catalogItems s)])"
    by (simp add: gallery_render_items visibleData_positions [of s] comp_def)
  have 3: "visibleData (s\<lparr>activeFilter := ''all''\<rparr>) = catalogItems s"
    by (simp add: visibleData_def)
  from 1 2 3 subseq_visibleData [of s] show ?thesis
    by blast
qed

theorem render_visible_subset_witness:
  "catalogItems sofa_state = [0, 1, 2] \<and> activeFilter sofa_state = ''sofa'' \<and>
   visibleData sofa_state = [0, 2] \<and>
   map (\<lambda>c. product_name (card_item c)) (gallery (renderGalleryGrid sofa_state)) = [''A'', ''C'']"
proof -
  have st: "catalogItems sofa_state = [0, 1, 2]" "activeFilter sofa_state = ''sofa''"
    by code_simp+
  have pos: "map (\<lambda>i. catalogItems sofa_state ! i)
      (filter (visible_position sofa_state) [0..<length (catalogItems sofa_state)]) = [0, 2]"
    by code_simp
  have names: "map (\<lambda>c. product_name (card_item c)) (gallery (renderGalleryGrid sofa_state)) =
      [''A'', ''C'']"
    by code_simp
  from render_visible_subset [of sofa_state]
  have "visibleData sofa_state = map (\<lambda>i. catalogItems sofa_state ! i)
      (filter (visible_position sofa_state) [0..<length (catalogItems sofa_state)])"
    by blast
  from this pos have "visibleData sofa_state = [0, 2]"
    by (rule trans)
  with st names show ?thesis
    by blast
qed

text \<open>
  The identity written on a card is found when the card is built, by \<^verbatim>\<open>indexOf\<close>.
  When no object occurs at two positions of the catalog, every card carries the position
  of the item it shows and no two cards carry the same identity, whatever the content of
  the items: two objects with the same content get different identities.
\<close>

lemma render_identity_distinct:
  assumes "distinct (catalogItems s)"
  shows "map data_index (gallery (renderGalleryGrid s)) =
           map (indexOf (catalogItems s)) (visibleData s) \<and>
         map (\<lambda>c. (data_index c, card_item c)) (gallery (renderGalleryGrid s)) =
           map (\<lambda>i. (int i, objects s (catalogItems s ! i)))
             (filter (visible_position s) [0..<length (catalogItems s)]) \<and>
         distinct (map data_index (gallery (renderGalleryGrid s)))"
proof -
  let ?ps = "filter (visible_position s) [0..<length (catalogItems s)]"
  note p = render_positions [OF assms]
  have "map fst (map (\<lambda>c. (data_index c, card_item c)) (gallery (renderGalleryGrid s))) =
      map fst (map (\<lambda>i. (int i, objects s (catalogItems s ! i))) ?ps)"
    by (simp only: p)
  then have "map data_index (gallery (renderGalleryGrid s)) = map int ?ps"
    by (simp add: comp_def)
  moreover have "distinct (map int ?ps)"
    by (simp add: distinct_map inj_on_def)
  ultimately have "distinct (map data_index (gallery (renderGalleryGrid s)))"
    by simp
  with p gallery_render_indices [of s] show ?thesis
    by blast
qed

lemma render_identity_distinct_example:
  "distinct (catalogItems twins_state) \<and>
   objects twins_state (catalogItems twins_state ! 0) =
     objects twins_state (catalogItems twins_state ! 1) \<and>
   map data_index (gallery (renderGalleryGrid twins_state)) = [0, 1] \<and>
   distinct (map data_index (gallery (renderGalleryGrid twins_state)))"
proof -
  have d: "distinct (catalogItems twins_state)"
    by code_simp
  have same: "objects twins_state (catalogItems twins_state ! 0) =
      objects twins_state (catalogItems twins_state ! 1)"
    by code_simp
  have ids: "map data_index (gallery (renderGalleryGrid twins_state)) = [0, 1]"
    by code_simp
  from render_identity_distinct [OF d]
  have "distinct (map data_index (gallery (renderGalleryGrid twins_state)))"
    by blast
  with d same ids show ?thesis
    by blast
qed

text \<open>
  C1. In a catalog that lists one object at two positions (an alias in the data file),
  \<open>buildCardElement\<close> does not attach to each card the position of its item: shown under
  the filter \<open>all\<close>, the card of the item at position 1 carries the identity 0, the same
  as the card of the item at position 0. The identity is searched by \<^verbatim>\<open>indexOf\<close> when
  the card is built, and the search stops at the first position that holds the object.
\<close>

theorem render_identity_aliased_catalog:
  "activeFilter alias_state = ''all'' \<and>
   catalogItems alias_state = [0, 0] \<and>
   length (gallery (renderGalleryGrid alias_state)) = 2 \<and>
   data_index (gallery (renderGalleryGrid alias_state) ! 1) = 0 \<and>
   map data_index (gallery (renderGalleryGrid alias_state)) = [0, 0] \<and>
   map data_index (gallery (renderGalleryGrid alias_state)) \<noteq>
     map int [0..<length (catalogItems alias_state)]"
  by code_simp

section \<open>Filter changes\<close>

lemma handleCategoryFilterClick_frame [simp]:
  "compareIndices (handleCategoryFilterClick b s) = compareIndices s"
  "cartIndices (handleCategoryFilterClick b s) = cartIndices s"
  "catalogItems (handleCategoryFilterClick b s) = catalogItems s"
  "objects (handleCategoryFilterClick b s) = objects s"
  "localStorage (handleCategoryFilterClick b s) = localStorage s"
  by (simp_all add: handleCategoryFilterClick_def split: option.split)

lemma filter_clicks_frame [simp]:
  "compareIndices (foldl (\<lambda>t b. handleCategoryFilterClick b t) s bs) = compareIndices s"
  "cartIndices (foldl (\<lambda>t b. handleCategoryFilterClick b t) s bs) = cartIndices s"
  "catalogItems (foldl (\<lambda>t b. handleCategoryFilterClick b t) s bs) = catalogItems s"
  "objects (foldl (\<lambda>t b. handleCategoryFilterClick b t) s bs) = objects s"
  "localStorage (foldl (\<lambda>t b. handleCategoryFilterClick b t) s bs) = localStorage s"
  by (induction bs arbitrary: s) simp_all

text \<open>
  C5. After any sequence of clicks on the filter container (on filter buttons or beside
  them), the comparison set and the cart set are what they were. After one more click on
  a filter button, every card shown carries the markers of its identity in these sets:
  checkbox and \<^verbatim>\<open>selected\<close> class for the comparison set, \<^verbatim>\<open>in-cart\<close> class for the
  cart. When no object occurs twice in the catalog, an item that passes the last filter
  is shown with its position as identity, so it carries the markers it had before it was
  hidden.
\<close>

theorem filter_changes_keep_selection:
  "compareIndices (foldl (\<lambda>t b. handleCategoryFilterClick b t) s bs) = compareIndices s \<and>
   cartIndices (foldl (\<lambda>t b. handleCategoryFilterClick b t) s bs) = cartIndices s \<and>
   (\<forall>c \<in> set (gallery (handleCategoryFilterClick (Some f)
                           (foldl (\<lambda>t b. handleCategoryFilterClick b t) s bs))).
       cb_checked c = (data_index c \<in> set (compareIndices s)) \<and>
       card_selected c = (data_index c \<in> set (compareIndices s)) \<and>
       btn_in_cart c = (data_index c \<in> set (cartIndices s))) \<and>
   (distinct (catalogItems s) \<and> i < length (catalogItems s) \<and>
    (f = ''all'' \<or> category (objects s (catalogItems s ! i)) = f) \<longrightarrow>
      (\<exists>c \<in> set (gallery (handleCategoryFilterClick (Some f)
                              (foldl (\<lambda>t b. handleCategoryFilterClick b t) s bs))).
          data_index c = int i \<and> card_item c = objects s (catalogItems s ! i) \<and>
          card_selected c = (int i \<in> set (compareIndices s)) \<and>
          btn_in_cart c = (int i \<in> set (cartIndices s))))"
proof -
  let ?t = "foldl (\<lambda>t b. handleCategoryFilterClick b t) s bs"
  let ?u = "?t\<lparr>active_pill := f, activeFilter := f\<rparr>"
  have g: "gallery (handleCategoryFilterClick (Some f) ?t) = gallery (renderGalleryGrid ?u)"
    by (simp add: handleCategoryFilterClick_def)
  have u: "compareIndices ?u = compareIndices s" "cartIndices ?u = cartIndices s"
    "catalogItems ?u = catalogItems s" "objects ?u = objects s" "activeFilter ?u = f"
    by simp_all
  have m: "\<forall>c \<in> set (gallery (renderGalleryGrid ?u)).
       cb_checked c = (data_index c \<in> set (compareIndices s)) \<and>
       card_selected c = (data_index c \<in> set (compareIndices s)) \<and>
       btn_in_cart c = (data_index c \<in> set (cartIndices s))"
    using render_markers [of _ ?u] by (simp only: u) blast
  have r: "\<exists>c \<in> set (gallery (renderGalleryGrid ?u)).
          data_index c = int i \<and> card_item c = objects s (catalogItems s ! i) \<and>
          card_selected c = (int i \<in> set (compareIndices s)) \<and>
          btn_in_cart c = (int i \<in> set (cartIndices s))"
    if d: "distinct (catalogItems s)" and i: "i < length (catalogItems s)"
      and v: "f = ''all'' \<or> category (objects s (catalogItems s ! i)) = f"
  proof -
    from render_shows_position [of ?u i] d i v u
    obtain c where c: "c \<in> set (gallery (renderGalleryGrid ?u))" "data_index c = int i"
      "card_item c = objects s (catalogItems s ! i)"
      by auto
    with m show ?thesis by auto
  qed
  from m r show ?thesis
    by (simp only: g filter_clicks_frame) blast
qed

theorem filter_changes_keep_selection_witness:
  "compareIndices selected_A_state = [0] \<and> cartIndices selected_A_state = [0] \<and>
   distinct (catalogItems selected_A_state) \<and> 0 < length (catalogItems selected_A_state) \<and>
   category (objects selected_A_state (catalogItems selected_A_state ! 0)) = ''sofa'' \<and>
   map data_index (gallery (handleCategoryFilterClick (Some ''chair'') selected_A_state)) = [1] \<and>
   compareIndices (foldl (\<lambda>t b. handleCategoryFilterClick b t) selected_A_state [Some ''chair''])
     = [0] \<and>
   cartIndices (foldl (\<lambda>t b. handleCategoryFilterClick b t) selected_A_state [Some ''chair''])
     = [0] \<and>
   (\<exists>c \<in> set (gallery (handleCategoryFilterClick (Some ''sofa'')
        (foldl (\<lambda>t b. handleCategoryFilterClick b t) selected_A_state [Some ''chair'']))).
      data_index c = 0 \<and> card_selected c \<and> btn_in_cart c) \<and>
   map (\<lambda>c. (data_index c, card_selected c, btn_in_cart c))
     (gallery (handleCategoryFilterClick (Some ''sofa'')
        (foldl (\<lambda>t b. handleCategoryFilterClick b t) selected_A_state [Some ''chair''])))
     = [(0, True, True), (2, False, False)]"
proof -
  let ?t = "foldl (\<lambda>t b. handleCategoryFilterClick b t) selected_A_state [Some ''chair'']"
  have sel: "compareIndices selected_A_state = [0]" "cartIndices selected_A_state = [0]"
    by code_simp+
  have hyp: "distinct (catalogItems selected_A_state)" "0 < length (catalogItems selected_A_state)"
    "category (objects selected_A_state (catalogItems selected_A_state ! 0)) = ''sofa''"
    by code_simp+
  have hidden:
    "map data_index (gallery (handleCategoryFilterClick (Some ''chair'') selected_A_state)) = [1]"
    by code_simp
  have cards: "map (\<lambda>c. (data_index c, card_selected c, btn_in_cart c))
     (gallery (handleCategoryFilterClick (Some ''sofa'') ?t))
     = [(0, True, True), (2, False, False)]"
    by code_simp
  note inst = filter_changes_keep_selection [of selected_A_state "[Some ''chair'']" "''sofa''" 0]
  from inst have kept: "compareIndices ?t = compareIndices selected_A_state"
    "cartIndices ?t = cartIndices selected_A_state"
    by blast+
  from inst hyp have "\<exists>c \<in> set (gallery (handleCategoryFilterClick (Some ''sofa'') ?t)).
      data_index c = int 0 \<and>
      card_item c = objects selected_A_state (catalogItems selected_A_state ! 0) \<and>
      card_selected c = (int 0 \<in> set (compareIndices selected_A_state)) \<and>
      btn_in_cart c = (int 0 \<in> set (cartIndices selected_A_state))"
    by blast
  then have shown: "\<exists>c \<in> set (gallery (handleCategoryFilterClick (Some ''sofa'') ?t)).
      data_index c = 0 \<and> card_selected c \<and> btn_in_cart c"
    by (auto simp: sel)
  from sel hyp hidden kept shown cards show ?thesis
    by (simp only: simp_thms)
qed

section \<open>The checkboxes keep showing the comparison set\<close>

text \<open>
  \<open>markers_shown\<close> holds after a render of a catalog in which no object occurs
  twice, and every handler keeps it. So the conditions under which a toggle is studied
  above (the checkbox shows the membership of its identity, the set is within its
  capacity) hold in every state such a session reaches.
\<close>

lemma markers_shown_render:
  assumes "distinct (catalogItems s)" and "set_size (compareIndices s) \<le> MAX_COMPARE_ITEMS"
  shows "markers_shown (renderGalleryGrid s)"
proof -
  have "distinct (map data_index (gallery (renderGalleryGrid s)))"
  proof -
    have "map fst (map (\<lambda>c. (data_index c, card_item c)) (gallery (renderGalleryGrid s))) =
      map fst (map (\<lambda>i. (int i, objects s (catalogItems s ! i)))
        (filter (visible_position s) [0..<length (catalogItems s)]))"
      by (simp only: render_positions [OF assms(1)])
    then have "map data_index (gallery (renderGalleryGrid s)) =
        map int (filter (visible_position s) [0..<length (catalogItems s)])"
      by (simp add: comp_def)
    then show ?thesis by (simp add: distinct_map inj_on_def)
  qed
  moreover have "list_all (\<lambda>c. cb_checked c = set_has (data_index c) (compareIndices s))
      (gallery (renderGalleryGrid s))"
    using render_markers [of _ s] by (auto simp: list_all_iff set_has_def)
  ultimately show ?thesis
    using assms(2) by (simp add: markers_shown_def)
qed

lemma markers_shown_at:
  assumes "markers_shown s" and "k < length (gallery s)"
  shows "cb_checked (gallery s ! k) = (data_index (gallery s ! k) \<in> set (compareIndices s))"
    and "set_size (compareIndices s) \<le> MAX_COMPARE_ITEMS"
  using assms by (auto simp: markers_shown_def list_all_length set_has_def)

lemma other_card_index:
  assumes "distinct (map data_index g)" and "k < length g" and "j < length g" and "j \<noteq> k"
  shows "data_index (g ! j) \<noteq> data_index (g ! k)"
  using assms by (auto simp: distinct_conv_nth)

lemma map_update_same: "k < length g \<Longrightarrow> (map f g)[k := f (g ! k)] = map f g"
  by (simp add: list_update_same_conv)

lemma markers_shown_toggleCompare:
  assumes m: "markers_shown s"
  shows "markers_shown (toggleCompare k s)"
proof (cases "k < length (gallery s)")
  case False
  then have "toggleCompare k s = s"
    by (simp add: toggleCompare_def handleGalleryInteractions_def toggleComparisonItem_def
        checkbox_flipped_def list_update_beyond)
  with m show ?thesis by simp
next
  case k: True
  let ?i = "data_index (gallery s ! k)"
  from m have all: "\<forall>j < length (gallery s).
      cb_checked (gallery s ! j) = (data_index (gallery s ! j) \<in> set (compareIndices s))"
    and d: "distinct (map data_index (gallery s))"
    and b: "set_size (compareIndices s) \<le> MAX_COMPARE_ITEMS"
    by (auto simp: markers_shown_def list_all_length set_has_def)
  have other: "data_index (gallery s ! j) \<noteq> ?i" if "j < length (gallery s)" "j \<noteq> k" for j
    using other_card_index [OF d k that] .
  show ?thesis
  proof (cases "cb_checked (gallery s ! k)")
    case True
    note f = toggleCompare_member [OF k True]
    have "map data_index (gallery (toggleCompare k s)) = map data_index (gallery s)"
      using k by (simp add: f(2) map_update list_update_same_conv)
    moreover have "\<forall>j < length (gallery s).
        cb_checked (gallery (toggleCompare k s) ! j) =
          (data_index (gallery (toggleCompare k s) ! j) \<in> set (compareIndices (toggleCompare k s)))"
      using all other k by (auto simp: f set_set_delete nth_list_update)
    moreover have "set_size (compareIndices (toggleCompare k s)) \<le> MAX_COMPARE_ITEMS"
      using b toggleCompare_bound [of s k] by (simp add: set_size_def)
    ultimately show ?thesis
      using d k by (simp add: markers_shown_def list_all_length set_has_def f(2))
  next
    case un: False
    show ?thesis
    proof (cases "set_size (compareIndices s) < MAX_COMPARE_ITEMS")
      case True
      note f = toggleCompare_absent [OF k un True]
      have "map data_index (gallery (toggleCompare k s)) = map data_index (gallery s)"
        using k by (simp add: f(2) map_update list_update_same_conv)
      moreover have "\<forall>j < length (gallery s).
          cb_checked (gallery (toggleCompare k s) ! j) =
            (data_index (gallery (toggleCompare k s) ! j) \<in> set (compareIndices (toggleCompare k s)))"
        using all other k by (auto simp: f set_set_add nth_list_update)
      moreover have "set_size (compareIndices (toggleCompare k s)) \<le> MAX_COMPARE_ITEMS"
        using b toggleCompare_bound [of s k] by (simp add: set_size_def)
      ultimately show ?thesis
        using d k by (simp add: markers_shown_def list_all_length set_has_def f(2))
    next
      case False
      then have "MAX_COMPARE_ITEMS \<le> set_size (compareIndices s)" by simp
      from toggleCompare_rejected [OF k un this] m show ?thesis
        by (simp add: markers_shown_def)
    qed
  qed
qed

lemma markers_shown_toggleCartItem:
  "markers_shown s \<Longrightarrow> markers_shown (toggleCartItem k s)"
  by (auto simp: markers_shown_def toggleCartItem_def Let_def localStorage_setItem_def
      list_all_length nth_list_update map_update map_update_same)

lemma markers_shown_clearComparisons:
  "markers_shown s \<Longrightarrow> markers_shown (clearComparisons s)"
  by (auto simp: markers_shown_def clearComparisons_def Let_def list_all_iff set_has_def
      set_size_def comp_def)

lemma markers_shown_clearCart:
  "markers_shown s \<Longrightarrow> markers_shown (clearCart s)"
  by (auto simp: markers_shown_def clearCart_def Let_def list_all_iff closeCartModal_def
      localStorage_removeItem_def comp_def)

lemma markers_shown_filter:
  assumes "markers_shown s" and "distinct (catalogItems s)"
  shows "markers_shown (handleCategoryFilterClick b s)"
proof (cases b)
  case None
  with assms show ?thesis by (simp add: handleCategoryFilterClick_def)
next
  case (Some f)
  from assms(1) have "set_size (compareIndices s) \<le> MAX_COMPARE_ITEMS"
    by (simp add: markers_shown_def)
  with assms(2) Some show ?thesis
    by (simp add: handleCategoryFilterClick_def markers_shown_render)
qed

section \<open>The comparison view\<close>

lemma those_array_get:
  assumes "\<forall>i \<in> set is. 0 \<le> i \<and> i < int (length xs)"
  shows "those (map (array_get xs) is) = Some (map (\<lambda>i. xs ! nat i) is)"
  using assms by (induction "is") (simp_all add: array_get_def)

lemma selectedObjects_in_range:
  assumes "\<forall>i \<in> set is. 0 \<le> i \<and> i < int (length (catalogItems s))"
  shows "selectedObjects s is = Some (map (\<lambda>i. objects s (catalogItems s ! nat i)) is)"
  using those_array_get [OF assms] by (simp add: selectedObjects_def comp_def)

lemma table_rows_width:
  "row \<in> set (generateComparisonTableHTML xs) \<Longrightarrow> length (snd row) = length xs"
  by (auto simp: generateComparisonTableHTML_def split: if_splits)

text \<open>
  C9. When every identity of the comparison set is a position of the catalog,
  \<open>openComparisonModal\<close> succeeds and shows the table built from the items found at
  these positions of \<^verbatim>\<open>state.catalogItems\<close>: no table for an empty set, and otherwise
  the six rows Feature, Price, Width, Depth, Height and Link, each of which holds one
  cell per identity of the set, in the insertion order of the set, with the field of the
  item at that position. The active filter and the cards of the gallery play no part:
  the table is the same under any filter and any gallery.
\<close>

theorem comparison_view_columns:
  assumes "\<forall>i \<in> set (compareIndices s). 0 \<le> i \<and> i < int (length (catalogItems s))"
  shows "\<exists>s'. openComparisonModal s = Inr s' \<and>
           compare_table s' = generateComparisonTableHTML
              (map (\<lambda>i. objects s (catalogItems s ! nat i)) (compareIndices s)) \<and>
           compare_table s' =
             (if compareIndices s = [] then []
              else
                [(''Feature'',
                    map (\<lambda>i. HeaderCell (main_image_url (objects s (catalogItems s ! nat i)))
                                         (product_name (objects s (catalogItems s ! nat i))))
                      (compareIndices s)),
                 (''Price'',
                    map (\<lambda>i. TextCell (price (objects s (catalogItems s ! nat i))))
                      (compareIndices s)),
                 (''Width'',
                    map (\<lambda>i. TextCell (width (dimensions (objects s (catalogItems s ! nat i)))))
                      (compareIndices s)),
                 (''Depth'',
                    map (\<lambda>i. TextCell
                                 (depth_length (dimensions (objects s (catalogItems s ! nat i)))))
                      (compareIndices s)),
                 (''Height'',
                    map (\<lambda>i. TextCell (height (dimensions (objects s (catalogItems s ! nat i)))))
                      (compareIndices s)),
                 (''Link'',
                    map (\<lambda>i. LinkCell (url (objects s (catalogItems s ! nat i))))
                      (compareIndices s))]) \<and>
           (\<forall>row \<in> set (compare_table s'). length (snd row) = length (compareIndices s)) \<and>
           map_sum id compare_table (openComparisonModal (s\<lparr>activeFilter := f, gallery := g\<rparr>)) =
             Inr (compare_table s')"
proof -
  let ?sel = "map (\<lambda>i. objects s (catalogItems s ! nat i)) (compareIndices s)"
  let ?s' = "s\<lparr>compare_table := generateComparisonTableHTML ?sel, compare_modal_hidden := False\<rparr>"
  have so: "selectedObjects s (compareIndices s) = Some ?sel"
    using selectedObjects_in_range [OF assms] .
  have so': "selectedObjects (s\<lparr>activeFilter := f, gallery := g\<rparr>) (compareIndices s) = Some ?sel"
    using so by (simp add: selectedObjects_def)
  have 1: "openComparisonModal s = Inr ?s'"
    by (simp add: openComparisonModal_def so)
  have 2: "\<forall>row \<in> set (compare_table ?s'). length (snd row) = length (compareIndices s)"
    using table_rows_width [of _ ?sel] by simp
  have 3: "compare_table ?s' =
             (if compareIndices s = [] then []
              else
                [(''Feature'',
                    map (\<lambda>i. HeaderCell (main_image_url (objects s (catalogItems s ! nat i)))
                                         (product_name (objects s (catalogItems s ! nat i))))
                      (compareIndices s)),
                 (''Price'',
                    map (\<lambda>i. TextCell (price (objects s (catalogItems s ! nat i))))
                      (compareIndices s)),
                 (''Width'',
                    map (\<lambda>i. TextCell (width (dimensions (objects s (catalogItems s ! nat i)))))
                      (compareIndices s)),
                 (''Depth'',
                    map (\<lambda>i. TextCell
                                 (depth_length (dimensions (objects s (catalogItems s ! nat i)))))
                      (compareIndices s)),
                 (''Height'',
                    map (\<lambda>i. TextCell (height (dimensions (objects s (catalogItems s ! nat i)))))
                      (compareIndices s)),
                 (''Link'',
                    map (\<lambda>i. LinkCell (url (objects s (catalogItems s ! nat i))))
                      (compareIndices s))])"
    by (simp add: generateComparisonTableHTML_def comp_def)
  have 4: "map_sum id compare_table (openComparisonModal (s\<lparr>activeFilter := f, gallery := g\<rparr>)) =
             Inr (compare_table ?s')"
    by (simp add: openComparisonModal_def so')
  have 5: "compare_table ?s' = generateComparisonTableHTML ?sel"
    by simp
  show ?thesis
    by (rule exI [where x = ?s']) (intro conjI 1 5 3 2 4)
qed

theorem comparison_view_columns_witness:
  "compareIndices compare_A_C_state = [0, 2] \<and>
   catalogItems compare_A_C_state = [0, 1, 2] \<and>
   (\<exists>s'. openComparisonModal compare_A_C_state = Inr s' \<and>
          compare_table s' =
            [(''Feature'', [HeaderCell ''img'' ''A'', HeaderCell ''img'' ''C'']),
             (''Price'', [TextCell ''$1000'', TextCell ''$300'']),
             (''Width'', [TextCell ''80'', TextCell ''80'']),
             (''Depth'', [TextCell ''35'', TextCell ''35'']),
             (''Height'', [TextCell ''30'', TextCell ''30'']),
             (''Link'', [LinkCell ''link'', LinkCell ''link''])]) \<and>
   compareIndices compare_C_A_state = [2, 0] \<and>
   (\<exists>s'. openComparisonModal compare_C_A_state = Inr s' \<and>
          compare_table s' =
            [(''Feature'', [HeaderCell ''img'' ''C'', HeaderCell ''img'' ''A'']),
             (''Price'', [TextCell ''$300'', TextCell ''$1000'']),
             (''Width'', [TextCell ''80'', TextCell ''80'']),
             (''Depth'', [TextCell ''35'', TextCell ''35'']),
             (''Height'', [TextCell ''30'', TextCell ''30'']),
             (''Link'', [LinkCell ''link'', LinkCell ''link''])])"
proof -
  let ?s = compare_A_C_state
  let ?it = "\<lambda>t i. objects t (catalogItems t ! nat i)"
  have sel: "compareIndices ?s = [0, 2]"
    by code_simp
  have cat: "catalogItems ?s = [0, 1, 2]" "objects ?s 0 = mk_item ''A'' ''sofa'' ''$1000''"
    "objects ?s 2 = mk_item ''C'' ''sofa'' ''$300''"
    by code_simp+
  have range: "\<forall>i \<in> set (compareIndices ?s). 0 \<le> i \<and> i < int (length (catalogItems ?s))"
    by code_simp
  from comparison_view_columns [OF range, where f = "activeFilter ?s" and g = "gallery ?s"]
  obtain s' where s': "openComparisonModal ?s = Inr s'"
    "compare_table s' =
       (if compareIndices ?s = [] then []
        else
          [(''Feature'', map (\<lambda>i. HeaderCell (main_image_url (?it ?s i)) (product_name (?it ?s i)))
                           (compareIndices ?s)),
           (''Price'', map (\<lambda>i. TextCell (price (?it ?s i))) (compareIndices ?s)),
           (''Width'', map (\<lambda>i. TextCell (width (dimensions (?it ?s i)))) (compareIndices ?s)),
           (''Depth'', map (\<lambda>i. TextCell (depth_length (dimensions (?it ?s i)))) (compareIndices ?s)),
           (''Height'', map (\<lambda>i. TextCell (height (dimensions (?it ?s i)))) (compareIndices ?s)),
           (''Link'', map (\<lambda>i. LinkCell (url (?it ?s i))) (compareIndices ?s))])"
    by blast
  have "compare_table s' =
            [(''Feature'', [HeaderCell ''img'' ''A'', HeaderCell ''img'' ''C'']),
             (''Price'', [TextCell ''$1000'', TextCell ''$300'']),
             (''Width'', [TextCell ''80'', TextCell ''80'']),
             (''Depth'', [TextCell ''35'', TextCell ''35'']),
             (''Height'', [TextCell ''30'', TextCell ''30'']),
             (''Link'', [LinkCell ''link'', LinkCell ''link''])]"
    by (simp add: s'(2) sel cat mk_item_def)
  with s'(1) have first: "\<exists>s'. openComparisonModal ?s = Inr s' \<and>
          compare_table s' =
            [(''Feature'', [HeaderCell ''img'' ''A'', HeaderCell ''img'' ''C'']),
             (''Price'', [TextCell ''$1000'', TextCell ''$300'']),
             (''Width'', [TextCell ''80'', TextCell ''80'']),
             (''Depth'', [TextCell ''35'', TextCell ''35'']),
             (''Height'', [TextCell ''30'', TextCell ''30'']),
             (''Link'', [LinkCell ''link'', LinkCell ''link''])]"
    by auto
  let ?r = compare_C_A_state
  have rsel: "compareIndices ?r = [2, 0]"
    by code_simp
  have rcat: "catalogItems ?r = [0, 1, 2]" "objects ?r 0 = mk_item ''A'' ''sofa'' ''$1000''"
    "objects ?r 2 = mk_item ''C'' ''sofa'' ''$300''"
    by code_simp+
  have rrange: "\<forall>i \<in> set (compareIndices ?r). 0 \<le> i \<and> i < int (length (catalogItems ?r))"
    by code_simp
  from comparison_view_columns [OF rrange, where f = "activeFilter ?r" and g = "gallery ?r"]
  obtain r' where r': "openComparisonModal ?r = Inr r'"
    "compare_table r' =
       (if compareIndices ?r = [] then []
        else
          [(''Feature'', map (\<lambda>i. HeaderCell (main_image_url (?it ?r i)) (product_name (?it ?r i)))
                           (compareIndices ?r)),
           (''Price'', map (\<lambda>i. TextCell (price (?it ?r i))) (compareIndices ?r)),
           (''Width'', map (\<lambda>i. TextCell (width (dimensions (?it ?r i)))) (compareIndices ?r)),
           (''Depth'', map (\<lambda>i. TextCell (depth_length (dimensions (?it ?r i)))) (compareIndices ?r)),
           (''Height'', map (\<lambda>i. TextCell (height (dimensions (?it ?r i)))) (compareIndices ?r)),
           (''Link'', map (\<lambda>i. LinkCell (url (?it ?r i))) (compareIndices ?r))])"
    by blast
  have "compare_table r' =
            [(''Feature'', [HeaderCell ''img'' ''C'', HeaderCell ''img'' ''A'']),
             (''Price'', [TextCell ''$300'', TextCell ''$1000'']),
             (''Width'', [TextCell ''80'', TextCell ''80'']),
             (''Depth'', [TextCell ''35'', TextCell ''35'']),
             (''Height'', [TextCell ''30'', TextCell ''30'']),
             (''Link'', [LinkCell ''link'', LinkCell ''link''])]"
    by (simp add: r'(2) rsel rcat mk_item_def)
  with r'(1) have second: "\<exists>s'. openComparisonModal ?r = Inr s' \<and>
          compare_table s' =
            [(''Feature'', [HeaderCell ''img'' ''C'', HeaderCell ''img'' ''A'']),
             (''Price'', [TextCell ''$300'', TextCell ''$1000'']),
             (''Width'', [TextCell ''80'', TextCell ''80'']),
             (''Depth'', [TextCell ''35'', TextCell ''35'']),
             (''Height'', [TextCell ''30'', TextCell ''30'']),
             (''Link'', [LinkCell ''link'', LinkCell ''link''])]"
    by auto
  from sel cat(1) first rsel second show ?thesis
    by (intro conjI)
qed

end
